theory Spec2Isabelle
  imports Main "HOL-Library.Char_ord"
begin

section \<open>Data model\<close>

text \<open>
  The library substitutes \<^verbatim>\<open>$key\<close> and \<^verbatim>\<open>${key}\<close> placeholders of a template string
  from a mapping object. Two versions of \<^verbatim>\<open>explode\<close> are in the repository: the current
  one of \<^verbatim>\<open>src/index.ts\<close>, which takes an options record, and the earlier one without
  options. Both share \<^verbatim>\<open>getTemplateKey\<close>, \<^verbatim>\<open>isAlphaNumeric\<close> and
  \<^verbatim>\<open>isShellSpecialVar\<close>, whose text is the same in the two files.

  A JavaScript string is a sequence of code units; it is modelled as a \<^typ>\<open>string\<close>, one
  list element for each code unit. The code compares code units with ASCII characters only
  and copies all others unchanged.

  A mapping of type \<^verbatim>\<open>Record<string, string | undefined>\<close> is a partial map from keys
  to values, where a value is a string or \<^verbatim>\<open>undefined\<close> (\<^term>\<open>None\<close>). So
  \<open>m k = None\<close> says that the object has no own property \<open>k\<close>, and \<open>m k = Some None\<close>
  that it has one whose value is \<^verbatim>\<open>undefined\<close>. Limits of the host, such as the maximal
  length of a string, are not modelled.
\<close>

type_synonym mapping = "string \<rightharpoonup> string option"

text \<open>
  A property read \<^verbatim>\<open>m[k]\<close> and the test \<^verbatim>\<open>k in m\<close> follow the prototype chain. The
  working copy \<^verbatim>\<open>{ ...mapping }\<close> is a plain object, and so is a mapping written as an
  object literal: its prototype is \<^verbatim>\<open>Object.prototype\<close>, whose twelve properties every
  such object inherits. Eleven of them are built-in functions, which string concatenation
  renders as \<^verbatim>\<open>function name() { [native code] }\<close>; the accessor \<^verbatim>\<open>__proto__\<close> returns
  \<^verbatim>\<open>Object.prototype\<close> itself, rendered as \<^verbatim>\<open>[object Object]\<close>. The table gives, for
  each inherited name, the text that \<^verbatim>\<open>buffer += m[k]\<close> appends. The mapping that the
  earlier version reads directly is taken to be such a plain object.
\<close>

definition native_function :: "string \<Rightarrow> string" where
  "native_function name = ''function '' @ name @ ''() { [native code] }''"

definition Object_prototype :: "string \<rightharpoonup> string" where
  "Object_prototype = map_of
     [(''constructor'', native_function ''Object''),
      (''__defineGetter__'', native_function ''__defineGetter__''),
      (''__defineSetter__'', native_function ''__defineSetter__''),
      (''hasOwnProperty'', native_function ''hasOwnProperty''),
      (''__lookupGetter__'', native_function ''__lookupGetter__''),
      (''__lookupSetter__'', native_function ''__lookupSetter__''),
      (''isPrototypeOf'', native_function ''isPrototypeOf''),
      (''propertyIsEnumerable'', native_function ''propertyIsEnumerable''),
      (''toString'', native_function ''toString''),
      (''valueOf'', native_function ''valueOf''),
      (''__proto__'', ''[object Object]''),
      (''toLocaleString'', native_function ''toLocaleString'')]"

text \<open>\<^verbatim>\<open>k in m\<close>: an own property or an inherited one.\<close>

definition has_property :: "mapping \<Rightarrow> string \<Rightarrow> bool" where
  "has_property m k = (m k \<noteq> None \<or> Object_prototype k \<noteq> None)"

text \<open>
  Both fields of \<^verbatim>\<open>Options\<close> are optional in the source and are only tested for
  truthiness, so a missing field behaves as \<^verbatim>\<open>false\<close>.
\<close>

record Options =
  ignoreUnsetVars :: bool
  ignoreDefaultExpansion :: bool

definition DEFAULT_OPTIONS :: Options where
  "DEFAULT_OPTIONS = \<lparr>ignoreUnsetVars = False, ignoreDefaultExpansion = False\<rparr>"

section \<open>String primitives of the host language\<close>

text \<open>\<^verbatim>\<open>str[k]\<close>: the code unit at index \<open>k\<close>, \<^verbatim>\<open>undefined\<close> out of range.\<close>

definition charAt :: "string \<Rightarrow> nat \<Rightarrow> char option" where
  "charAt str k = (if k < length str then Some (str ! k) else None)"

text \<open>
  \<^verbatim>\<open>str.slice(a, b)\<close> and \<^verbatim>\<open>str.slice(a)\<close> for indices that are not negative: both ends
  are clamped to the length of the string, and the result is empty when \<open>b \<le> a\<close>.
\<close>

definition slice :: "string \<Rightarrow> nat \<Rightarrow> nat \<Rightarrow> string" where
  "slice str a b = take (b - a) (drop a str)"

definition slice_from :: "string \<Rightarrow> nat \<Rightarrow> string" where
  "slice_from str a = drop a str"

text \<open>
  \<^verbatim>\<open>str.indexOf(c)\<close> for a single character: the first index of \<open>c\<close>; the source's
  \<open>-1\<close> is \<^term>\<open>None\<close>.
\<close>

fun indexOf :: "string \<Rightarrow> char \<Rightarrow> nat option" where
  "indexOf [] c = None"
| "indexOf (x # xs) c = (if x = c then Some 0 else map_option Suc (indexOf xs c))"

fun startsWith :: "string \<Rightarrow> string \<Rightarrow> bool" where
  "startsWith str [] = True"
| "startsWith [] (p # ps) = False"
| "startsWith (x # xs) (p # ps) = (x = p \<and> startsWith xs ps)"

text \<open>\<^verbatim>\<open>str.includes(sub)\<close>: \<open>sub\<close> occurs somewhere in \<open>str\<close>.\<close>

fun includes_str :: "string \<Rightarrow> string \<Rightarrow> bool" where
  "includes_str [] sub = (sub = [])"
| "includes_str (x # xs) sub = (startsWith (x # xs) sub \<or> includes_str xs sub)"

text \<open>
  \<^verbatim>\<open>key.split(/:=|:-/)\<close>: the string is cut at every occurrence of one of the two
  operators, found from left to right; the operators themselves are dropped. The result
  always has at least one piece.
\<close>

fun split_ops :: "string \<Rightarrow> string list" where
  "split_ops [] = [[]]"
| "split_ops (x # xs) =
     (if startsWith (x # xs) '':='' \<or> startsWith (x # xs) '':-''
      then [] # split_ops (tl xs)
      else (case split_ops xs of
              [] \<Rightarrow> [[x]]
            | p # ps \<Rightarrow> (x # p) # ps))"

text \<open>
  The text that \<^verbatim>\<open>buffer += v\<close> appends for a value of type
  \<^verbatim>\<open>string | undefined\<close>: string concatenation converts \<^verbatim>\<open>undefined\<close> to the
  nine characters \<^verbatim>\<open>undefined\<close>.
\<close>

definition to_text :: "string option \<Rightarrow> string" where
  "to_text v = (case v of Some s \<Rightarrow> s | None \<Rightarrow> ''undefined'')"

text \<open>Truthiness of a value of type \<^verbatim>\<open>string | undefined\<close>: a string that is not empty.\<close>

definition truthy :: "string option \<Rightarrow> bool" where
  "truthy v = (case v of Some s \<Rightarrow> s \<noteq> [] | None \<Rightarrow> False)"

text \<open>
  The text that \<^verbatim>\<open>buffer += m[k]\<close> appends: the own property if there is one, else the
  inherited one, else \<^verbatim>\<open>undefined\<close>.
\<close>

definition property_text :: "mapping \<Rightarrow> string \<Rightarrow> string" where
  "property_text m k =
     (case m k of
        Some v \<Rightarrow> to_text v
      | None \<Rightarrow>
          (case Object_prototype k of
             Some t \<Rightarrow> t
           | None \<Rightarrow> ''undefined''))"

section \<open>Character classes\<close>

definition isAlphaNumeric :: "char \<Rightarrow> bool" where
  "isAlphaNumeric c =
     (c = CHR ''_'' \<or>
      (CHR ''a'' \<le> c \<and> c \<le> CHR ''z'') \<or>
      (CHR ''A'' \<le> c \<and> c \<le> CHR ''Z'') \<or>
      (CHR ''0'' \<le> c \<and> c \<le> CHR ''9''))"

text \<open>
  The argument is \<^verbatim>\<open>str[0]\<close>, which is \<^verbatim>\<open>undefined\<close> for the empty string;
  \<^verbatim>\<open>includes\<close> on the array then finds nothing.
\<close>

definition isShellSpecialVar :: "char option \<Rightarrow> bool" where
  "isShellSpecialVar c =
     (case c of
        None \<Rightarrow> False
      | Some x \<Rightarrow> x \<in> set ''*#$@!?-0123456789'')"

section \<open>Key parsing\<close>

text \<open>The \<^verbatim>\<open>while\<close> loop of \<^verbatim>\<open>getTemplateKey\<close>: the end of the run of word characters.\<close>

function getTemplateKey_loop :: "string \<Rightarrow> nat \<Rightarrow> nat" where
  "getTemplateKey_loop str i =
     (if i < length str \<and> isAlphaNumeric (str ! i)
      then getTemplateKey_loop str (i + 1)
      else i)"
  by pat_completeness auto

termination
  by (relation "measure (\<lambda>(str, i). length str - i)") auto

text \<open>The result is the pair of the record's fields \<^verbatim>\<open>key\<close> and \<^verbatim>\<open>length\<close>.\<close>

definition getTemplateKey :: "string \<Rightarrow> string \<times> nat" where
  "getTemplateKey str =
     (if charAt str 0 = Some CHR ''{'' then
        (case indexOf str CHR ''}'' of
           Some end' \<Rightarrow>
             if end' = 1 then ([], 2)
             else (slice str 1 end', end' + 1)
         | None \<Rightarrow> ([], length (slice_from str 0)))
      else if isShellSpecialVar (charAt str 0) then ([], 0)
      else (let i = getTemplateKey_loop str 0 in (slice str 0 i, i)))"

section \<open>The current version, with options\<close>

text \<open>
  The body of \<^verbatim>\<open>if (str[j] === "$")\<close> after the key has been parsed: the text appended to
  the buffer and the working copy of the mapping afterwards. \<open>literal\<close> is
  \<^verbatim>\<open>str.slice(j, j + length + 1)\<close>. The array pattern takes the first two pieces of the
  split: the first always exists (lemma \<open>split_ops_not_Nil\<close>), and a second piece that
  does not exist is \<^verbatim>\<open>undefined\<close>. Both \<^verbatim>\<open>defaultValue && ...\<close> and
  \<^verbatim>\<open>defaultValue?.length\<close> test that the default is a string that is not empty.
\<close>

definition substitute :: "Options \<Rightarrow> mapping \<Rightarrow> string \<Rightarrow> string \<Rightarrow> string \<times> mapping" where
  "substitute options m key literal =
     (if key = [] then (literal, m)
      else
        (let parts = split_ops key;
             realKey = hd parts;
             defaultValue = (if 1 < length parts then Some (parts ! 1) else None);
             text = (if has_property m realKey then property_text m realKey
                     else if truthy defaultValue \<and> \<not> ignoreDefaultExpansion options
                     then to_text defaultValue
                     else if ignoreUnsetVars options then literal
                     else []);
             m' = (if \<not> ignoreDefaultExpansion options \<and> \<not> has_property m realKey \<and>
                      truthy defaultValue \<and> includes_str key '':=''
                   then m(realKey \<mapsto> defaultValue)
                   else m)
         in (text, m')))"

text \<open>
  The \<^verbatim>\<open>for\<close> loop over \<open>j\<close>, with the variables \<open>m\<close>, \<open>buffer\<close> and \<open>i\<close> it updates.
  After a placeholder the source sets \<open>j += length\<close>, \<open>i = j + 1\<close>, and the loop header
  adds one to \<open>j\<close>.
\<close>

function explode_loop ::
  "string \<Rightarrow> Options \<Rightarrow> nat \<Rightarrow> mapping \<Rightarrow> string \<Rightarrow> nat \<Rightarrow> mapping \<times> string \<times> nat" where
  "explode_loop str options j m buffer i =
     (if j < length str then
        (if str ! j = CHR ''$'' then
           (let buffer1 = buffer @ slice str i j;
                (key, len) = getTemplateKey (slice_from str (j + 1));
                (text, m') = substitute options m key (slice str j (j + len + 1))
            in explode_loop str options (j + len + 1) m' (buffer1 @ text) (j + len + 1))
         else explode_loop str options (j + 1) m buffer i)
      else (m, buffer, i))"
  by pat_completeness auto

termination
  by (relation "measure (\<lambda>(str, options, j, m, buffer, i). length str - j)") auto

definition explode :: "string \<Rightarrow> mapping \<Rightarrow> Options \<Rightarrow> string" where
  "explode str mapping options =
     (let m = mapping;
          (m', buffer, i) = explode_loop str options 0 m [] 0
      in buffer @ slice_from str i)"

section \<open>The earlier version, without options\<close>

text \<open>
  \<^verbatim>\<open>mapping[key] ?? ""\<close>: the property read gives the own property if there is one, else
  the inherited one. It is \<^verbatim>\<open>undefined\<close> for an own property whose value is
  \<^verbatim>\<open>undefined\<close> and for a name that is neither own nor inherited, and \<^verbatim>\<open>??\<close> replaces
  that by the empty string.
\<close>

definition lookup_text :: "mapping \<Rightarrow> string \<Rightarrow> string" where
  "lookup_text mapping key =
     (case mapping key of
        Some (Some v) \<Rightarrow> v
      | Some None \<Rightarrow> []
      | None \<Rightarrow>
          (case Object_prototype key of
             Some t \<Rightarrow> t
           | None \<Rightarrow> []))"

text \<open>
  The loop is the one of the current version, without the working copy: the mapping is only
  read.
\<close>

function explode_simple_loop :: "string \<Rightarrow> mapping \<Rightarrow> nat \<Rightarrow> string \<Rightarrow> nat \<Rightarrow> string \<times> nat" where
  "explode_simple_loop str mapping j buffer i =
     (if j < length str then
        (if str ! j = CHR ''$'' then
           (let buffer1 = buffer @ slice str i j;
                (key, len) = getTemplateKey (slice_from str (j + 1));
                text = (if key = [] then slice str j (j + len + 1)
                        else lookup_text mapping key)
            in explode_simple_loop str mapping (j + len + 1) (buffer1 @ text) (j + len + 1))
         else explode_simple_loop str mapping (j + 1) buffer i)
      else (buffer, i))"
  by pat_completeness auto

termination
  by (relation "measure (\<lambda>(str, mapping, j, buffer, i). length str - j)") auto

definition explode_simple :: "string \<Rightarrow> mapping \<Rightarrow> string" where
  "explode_simple str mapping =
     (let (buffer, i) = explode_simple_loop str mapping 0 [] 0
      in buffer @ slice_from str i)"

section \<open>The call on a heap of objects\<close>

text \<open>
  The mapping is an object that the caller holds by reference. To state what a call does to
  the caller's object, the call is also modelled on a heap: a list of objects, where the
  index of an object is its address. \<^verbatim>\<open>const m = { ...mapping }\<close> allocates a new
  object with the own properties of \<open>mapping\<close>; the loop reads and writes the object at
  the address \<open>m\<close>. The only write of the source is \<^verbatim>\<open>m[realKey] = defaultValue\<close>.
\<close>

type_synonym heap = "mapping list"

function explode_loop_heap ::
  "string \<Rightarrow> Options \<Rightarrow> nat \<Rightarrow> nat \<Rightarrow> heap \<Rightarrow> string \<Rightarrow> nat \<Rightarrow> heap \<times> string \<times> nat" where
  "explode_loop_heap str options j m h buffer i =
     (if j < length str then
        (if str ! j = CHR ''$'' then
           (let buffer1 = buffer @ slice str i j;
                (key, len) = getTemplateKey (slice_from str (j + 1));
                (text, obj) = substitute options (h ! m) key (slice str j (j + len + 1))
            in explode_loop_heap str options (j + len + 1) m (h[m := obj]) (buffer1 @ text)
                 (j + len + 1))
         else explode_loop_heap str options (j + 1) m h buffer i)
      else (h, buffer, i))"
  by pat_completeness auto

termination
  by (relation "measure (\<lambda>(str, options, j, m, h, buffer, i). length str - j)") auto

definition explode_call :: "string \<Rightarrow> nat \<Rightarrow> Options \<Rightarrow> heap \<Rightarrow> string \<times> heap" where
  "explode_call str mapping options h =
     (let m = length h;
          h1 = h @ [h ! mapping];
          (h', buffer, i) = explode_loop_heap str options 0 m h1 [] 0
      in (buffer @ slice_from str i, h'))"

section \<open>The result of the loop from a given position\<close>

text \<open>
  The string that a call returns when its loop is at position \<open>j\<close> with the variables
  \<open>m\<close>, \<open>buffer\<close> and \<open>i\<close>: the loop runs to its end and the rest of the template from
  \<open>i\<close> is appended.
\<close>

definition explode_from :: "string \<Rightarrow> Options \<Rightarrow> nat \<Rightarrow> mapping \<Rightarrow> string \<Rightarrow> nat \<Rightarrow> string" where
  "explode_from str options j m buffer i =
     (case explode_loop str options j m buffer i of
        (m', buf, i') \<Rightarrow> buf @ slice_from str i')"

definition explode_simple_from :: "string \<Rightarrow> mapping \<Rightarrow> nat \<Rightarrow> string \<Rightarrow> nat \<Rightarrow> string" where
  "explode_simple_from str mapping j buffer i =
     (case explode_simple_loop str mapping j buffer i of
        (buf, i') \<Rightarrow> buf @ slice_from str i')"

section \<open>The loops as recursion over the rest of the template\<close>

text \<open>
  The loops work with indices into the whole template. The lemmas of this section show that
  what a loop appends from position \<open>j\<close> on depends only on the template from \<open>j\<close> on
  and on the working copy, which gives one equation for a template that starts with a
  \<^verbatim>\<open>$\<close> and one for a template that starts with another character.
\<close>

declare explode_loop.simps [simp del]
declare explode_simple_loop.simps [simp del]
declare explode_loop_heap.simps [simp del]

lemma explode_eq_from: "explode str mapping options = explode_from str options 0 mapping [] 0"
  by (simp add: explode_def explode_from_def)

lemma explode_from_end:
  "\<not> j < length str \<Longrightarrow> explode_from str options j m buffer i = buffer @ drop i str"
  by (simp add: explode_from_def explode_loop.simps [of str options j] slice_from_def)

lemma explode_from_other:
  "j < length str \<Longrightarrow> str ! j \<noteq> CHR ''$'' \<Longrightarrow>
   explode_from str options j m buffer i = explode_from str options (j + 1) m buffer i"
  by (simp add: explode_from_def explode_loop.simps [of str options j])

lemma explode_from_dollar:
  "j < length str \<Longrightarrow> str ! j = CHR ''$'' \<Longrightarrow>
   getTemplateKey (drop (Suc j) str) = (key, len) \<Longrightarrow>
   substitute options m key (slice str j (j + len + 1)) = (emitted, m') \<Longrightarrow>
   explode_from str options j m buffer i =
     explode_from str options (j + len + 1) m' (buffer @ slice str i j @ emitted) (j + len + 1)"
  by (simp add: explode_from_def explode_loop.simps [of str options j] slice_from_def)

lemma slice_extend:
  "i \<le> j \<Longrightarrow> j < length str \<Longrightarrow> slice str i j @ [str ! j] = slice str i (j + 1)"
proof -
  assume ij: "i \<le> j" and jl: "j < length str"
  then have "j - i < length (drop i str)" by simp
  then have "take (Suc (j - i)) (drop i str) = take (j - i) (drop i str) @ [drop i str ! (j - i)]"
    by (rule take_Suc_conv_app_nth)
  then show ?thesis
    using ij jl by (simp add: slice_def Suc_diff_le)
qed

lemma explode_from_suffix:
  "i \<le> j \<Longrightarrow>
   explode_from str options j m buffer i =
     buffer @ slice str i j @ explode (drop j str) m options"
proof (induction "length str - j" arbitrary: str j m buffer i rule: less_induct)
  case less
  let ?s = "drop j str"
  show ?case
  proof (cases "j < length str")
    case False
    then show ?thesis
      using less.prems by (simp add: explode_eq_from explode_from_end slice_def)
  next
    case inside: True
    then have s0: "0 < length ?s" and s_hd: "?s ! 0 = str ! j" by simp_all
    show ?thesis
    proof (cases "str ! j = CHR ''$''")
      case False
      have "explode_from str options j m buffer i = explode_from str options (j + 1) m buffer i"
        using inside False by (rule explode_from_other)
      also have "\<dots> = buffer @ slice str i (j + 1) @ explode (drop (j + 1) str) m options"
        using less.prems inside by (intro less.hyps) auto
      finally have lhs: "explode_from str options j m buffer i =
          buffer @ slice str i (j + 1) @ explode (drop (j + 1) str) m options" .
      have "explode ?s m options = explode_from ?s options (0 + 1) m [] 0"
        unfolding explode_eq_from using s0 False s_hd by (intro explode_from_other) auto
      also have "\<dots> = [] @ slice ?s 0 (0 + 1) @ explode (drop (0 + 1) ?s) m options"
        using inside by (intro less.hyps) auto
      also have "\<dots> = [str ! j] @ explode (drop (j + 1) str) m options"
        using inside by (simp add: slice_def take_Suc_conv_app_nth hd_drop_conv_nth  take_Suc)
      finally have rhs: "explode ?s m options = [str ! j] @ explode (drop (j + 1) str) m options" .
      show ?thesis
        using lhs rhs slice_extend [OF less.prems inside] by (metis append.assoc)
    next
      case True
      obtain key len where k: "getTemplateKey (drop (Suc j) str) = (key, len)"
        by (cases "getTemplateKey (drop (Suc j) str)")
      obtain emitted m' where t: "substitute options m key (slice str j (j + len + 1)) = (emitted, m')"
        by (cases "substitute options m key (slice str j (j + len + 1))")
      have "explode_from str options j m buffer i =
          explode_from str options (j + len + 1) m' (buffer @ slice str i j @ emitted) (j + len + 1)"
        using inside True k t by (rule explode_from_dollar)
      also have "\<dots> = (buffer @ slice str i j @ emitted) @ slice str (j + len + 1) (j + len + 1) @
          explode (drop (j + len + 1) str) m' options"
        using inside by (intro less.hyps) auto
      finally have lhs: "explode_from str options j m buffer i =
          buffer @ slice str i j @ emitted @ explode (drop (j + len + 1) str) m' options"
        by (simp add: slice_def)
      have k': "getTemplateKey (drop (Suc 0) ?s) = (key, len)"
        using k by simp
      have t': "substitute options m key (slice ?s 0 (0 + len + 1)) = (emitted, m')"
        using t by (simp add: slice_def)
      have "explode ?s m options =
          explode_from ?s options (0 + len + 1) m' ([] @ slice ?s 0 0 @ emitted) (0 + len + 1)"
        unfolding explode_eq_from using s0 _ k' t'
        by (rule explode_from_dollar) (simp add: s_hd True)
      also have "\<dots> = ([] @ slice ?s 0 0 @ emitted) @ slice ?s (0 + len + 1) (0 + len + 1) @
          explode (drop (0 + len + 1) ?s) m' options"
        using inside by (intro less.hyps) auto
      finally have rhs: "explode ?s m options = emitted @ explode (drop (j + len + 1) str) m' options"
        by (simp add: slice_def add.commute add.left_commute)
      show ?thesis
        using lhs rhs by simp
    qed
  qed
qed

lemma explode_Nil: "explode [] m options = []"
  by (simp add: explode_eq_from explode_from_end)

lemma explode_Cons_other:
  assumes "c \<noteq> CHR ''$''"
  shows "explode (c # s) m options = c # explode s m options"
proof -
  have "explode (c # s) m options = explode_from (c # s) options (0 + 1) m [] 0"
    unfolding explode_eq_from using assms by (intro explode_from_other) auto
  also have "\<dots> = [] @ slice (c # s) 0 (0 + 1) @ explode (drop (0 + 1) (c # s)) m options"
    by (rule explode_from_suffix) simp
  finally show ?thesis by (simp add: slice_def)
qed

lemma explode_Cons_dollar:
  assumes "getTemplateKey s = (key, len)"
    and "substitute options m key (CHR ''$'' # take len s) = (emitted, m')"
  shows "explode (CHR ''$'' # s) m options = emitted @ explode (drop len s) m' options"
proof -
  let ?str = "CHR ''$'' # s"
  have "explode ?str m options =
      explode_from ?str options (0 + len + 1) m' ([] @ slice ?str 0 0 @ emitted) (0 + len + 1)"
    unfolding explode_eq_from using assms
    by (intro explode_from_dollar) (auto simp: slice_def)
  also have "\<dots> = ([] @ slice ?str 0 0 @ emitted) @ slice ?str (0 + len + 1) (0 + len + 1) @
      explode (drop (0 + len + 1) ?str) m' options"
    by (rule explode_from_suffix) simp
  finally show ?thesis by (simp add: slice_def)
qed


subsection \<open>The earlier version\<close>

lemma explode_simple_eq_from: "explode_simple str mapping = explode_simple_from str mapping 0 [] 0"
  by (simp add: explode_simple_def explode_simple_from_def)

lemma explode_simple_from_end:
  "\<not> j < length str \<Longrightarrow> explode_simple_from str mapping j buffer i = buffer @ drop i str"
  by (simp add: explode_simple_from_def explode_simple_loop.simps [of str mapping j] slice_from_def)

lemma explode_simple_from_other:
  "j < length str \<Longrightarrow> str ! j \<noteq> CHR ''$'' \<Longrightarrow>
   explode_simple_from str mapping j buffer i = explode_simple_from str mapping (j + 1) buffer i"
  by (simp add: explode_simple_from_def explode_simple_loop.simps [of str mapping j])

lemma explode_simple_from_dollar:
  "j < length str \<Longrightarrow> str ! j = CHR ''$'' \<Longrightarrow>
   getTemplateKey (drop (Suc j) str) = (key, len) \<Longrightarrow>
   emitted = (if key = [] then slice str j (j + len + 1) else lookup_text mapping key) \<Longrightarrow>
   explode_simple_from str mapping j buffer i =
     explode_simple_from str mapping (j + len + 1) (buffer @ slice str i j @ emitted) (j + len + 1)"
  by (simp add: explode_simple_from_def explode_simple_loop.simps [of str mapping j]
      slice_from_def lookup_text_def)

lemma explode_simple_from_suffix:
  "i \<le> j \<Longrightarrow>
   explode_simple_from str mapping j buffer i =
     buffer @ slice str i j @ explode_simple (drop j str) mapping"
proof (induction "length str - j" arbitrary: str j buffer i rule: less_induct)
  case less
  let ?s = "drop j str"
  show ?case
  proof (cases "j < length str")
    case False
    then show ?thesis
      using less.prems by (simp add: explode_simple_eq_from explode_simple_from_end slice_def)
  next
    case inside: True
    then have s0: "0 < length ?s" and s_hd: "?s ! 0 = str ! j" by simp_all
    show ?thesis
    proof (cases "str ! j = CHR ''$''")
      case False
      have "explode_simple_from str mapping j buffer i =
          explode_simple_from str mapping (j + 1) buffer i"
        using inside False by (rule explode_simple_from_other)
      also have "\<dots> = buffer @ slice str i (j + 1) @ explode_simple (drop (j + 1) str) mapping"
        using less.prems inside by (intro less.hyps) auto
      finally have lhs: "explode_simple_from str mapping j buffer i =
          buffer @ slice str i (j + 1) @ explode_simple (drop (j + 1) str) mapping" .
      have "explode_simple ?s mapping = explode_simple_from ?s mapping (0 + 1) [] 0"
        unfolding explode_simple_eq_from using s0 False s_hd
        by (intro explode_simple_from_other) auto
      also have "\<dots> = [] @ slice ?s 0 (0 + 1) @ explode_simple (drop (0 + 1) ?s) mapping"
        using inside by (intro less.hyps) auto
      also have "\<dots> = [str ! j] @ explode_simple (drop (j + 1) str) mapping"
        using inside by (simp add: slice_def take_Suc_conv_app_nth hd_drop_conv_nth take_Suc)
      finally have rhs: "explode_simple ?s mapping =
          [str ! j] @ explode_simple (drop (j + 1) str) mapping" .
      show ?thesis
        using lhs rhs slice_extend [OF less.prems inside] by (metis append.assoc)
    next
      case True
      obtain key len where k: "getTemplateKey (drop (Suc j) str) = (key, len)"
        by (cases "getTemplateKey (drop (Suc j) str)")
      define emitted where
        "emitted = (if key = [] then slice str j (j + len + 1) else lookup_text mapping key)"
      have "explode_simple_from str mapping j buffer i =
          explode_simple_from str mapping (j + len + 1) (buffer @ slice str i j @ emitted)
            (j + len + 1)"
        using inside True k emitted_def by (rule explode_simple_from_dollar)
      also have "\<dots> = (buffer @ slice str i j @ emitted) @
          slice str (j + len + 1) (j + len + 1) @ explode_simple (drop (j + len + 1) str) mapping"
        using inside by (intro less.hyps) auto
      finally have lhs: "explode_simple_from str mapping j buffer i =
          buffer @ slice str i j @ emitted @ explode_simple (drop (j + len + 1) str) mapping"
        by (simp add: slice_def)
      have k': "getTemplateKey (drop (Suc 0) ?s) = (key, len)"
        using k by simp
      have e': "emitted = (if key = [] then slice ?s 0 (0 + len + 1) else lookup_text mapping key)"
        by (simp add: emitted_def slice_def)
      have "explode_simple ?s mapping =
          explode_simple_from ?s mapping (0 + len + 1) ([] @ slice ?s 0 0 @ emitted) (0 + len + 1)"
        unfolding explode_simple_eq_from using s0 _ k' e'
        by (rule explode_simple_from_dollar) (simp add: s_hd True)
      also have "\<dots> = ([] @ slice ?s 0 0 @ emitted) @ slice ?s (0 + len + 1) (0 + len + 1) @
          explode_simple (drop (0 + len + 1) ?s) mapping"
        using inside by (intro less.hyps) auto
      finally have rhs: "explode_simple ?s mapping =
          emitted @ explode_simple (drop (j + len + 1) str) mapping"
        by (simp add: slice_def add.commute add.left_commute)
      show ?thesis
        using lhs rhs by simp
    qed
  qed
qed

lemma explode_simple_Nil: "explode_simple [] mapping = []"
  by (simp add: explode_simple_eq_from explode_simple_from_end)

lemma explode_simple_Cons_other:
  assumes "c \<noteq> CHR ''$''"
  shows "explode_simple (c # s) mapping = c # explode_simple s mapping"
proof -
  have "explode_simple (c # s) mapping = explode_simple_from (c # s) mapping (0 + 1) [] 0"
    unfolding explode_simple_eq_from using assms by (intro explode_simple_from_other) auto
  also have "\<dots> = [] @ slice (c # s) 0 (0 + 1) @ explode_simple (drop (0 + 1) (c # s)) mapping"
    by (rule explode_simple_from_suffix) simp
  finally show ?thesis by (simp add: slice_def)
qed

lemma explode_simple_Cons_dollar:
  assumes "getTemplateKey s = (key, len)"
  shows "explode_simple (CHR ''$'' # s) mapping =
    (if key = [] then CHR ''$'' # take len s else lookup_text mapping key) @
    explode_simple (drop len s) mapping"
proof -
  let ?str = "CHR ''$'' # s"
  let ?e = "if key = [] then CHR ''$'' # take len s else lookup_text mapping key"
  have "explode_simple ?str mapping =
      explode_simple_from ?str mapping (0 + len + 1) ([] @ slice ?str 0 0 @ ?e) (0 + len + 1)"
    unfolding explode_simple_eq_from using assms
    by (intro explode_simple_from_dollar) (auto simp: slice_def)
  also have "\<dots> = ([] @ slice ?str 0 0 @ ?e) @ slice ?str (0 + len + 1) (0 + len + 1) @
      explode_simple (drop (0 + len + 1) ?str) mapping"
    by (rule explode_simple_from_suffix) simp
  finally show ?thesis by (simp add: slice_def)
qed

subsection \<open>Key parsing on templates of a known shape\<close>

lemma indexOf_append_found:
  "c \<notin> set k \<Longrightarrow> indexOf (k @ c # rest) c = Some (length k)"
  by (induction k) auto

lemma indexOf_not_found: "c \<notin> set s \<Longrightarrow> indexOf s c = None"
  by (induction s) auto

lemma getTemplateKey_braced:
  assumes "k \<noteq> []" and "CHR ''}'' \<notin> set k"
  shows "getTemplateKey (CHR ''{'' # k @ CHR ''}'' # rest) = (k, length k + 2)"
proof -
  have "indexOf (CHR ''{'' # k @ CHR ''}'' # rest) CHR ''}'' = Some (Suc (length k))"
    using assms(2) by (simp add: indexOf_append_found)
  then show ?thesis
    using assms(1) by (simp add: getTemplateKey_def charAt_def slice_def)
qed

lemma getTemplateKey_empty_braces: "getTemplateKey (CHR ''{'' # CHR ''}'' # rest) = ([], 2)"
  by (simp add: getTemplateKey_def charAt_def)

lemma getTemplateKey_unterminated:
  "CHR ''}'' \<notin> set s \<Longrightarrow> getTemplateKey (CHR ''{'' # s) = ([], Suc (length s))"
  by (simp add: getTemplateKey_def charAt_def indexOf_not_found slice_from_def)

lemma getTemplateKey_special:
  "isShellSpecialVar (Some c) \<Longrightarrow> getTemplateKey (c # s) = ([], 0)"
  by (auto simp: getTemplateKey_def charAt_def isShellSpecialVar_def)

lemma getTemplateKey_Nil: "getTemplateKey [] = ([], 0)"
  by (simp add: getTemplateKey_def charAt_def isShellSpecialVar_def slice_def)

subsection \<open>A placeholder at any position of the scan\<close>

lemma explode_from_placeholder:
  assumes "j < length str" and "str ! j = CHR ''$''" and "i \<le> j"
    and "getTemplateKey (slice_from str (j + 1)) = (key, len)"
    and "substitute options m key (slice str j (j + len + 1)) = (emitted, m')"
  shows "explode_from str options j m buffer i =
    buffer @ slice str i j @ emitted @ explode (slice_from str (j + len + 1)) m' options"
proof -
  have "explode_from str options j m buffer i =
      explode_from str options (j + len + 1) m' (buffer @ slice str i j @ emitted) (j + len + 1)"
    using assms by (intro explode_from_dollar) (simp_all add: slice_from_def)
  also have "\<dots> = (buffer @ slice str i j @ emitted) @
      slice str (j + len + 1) (j + len + 1) @ explode (drop (j + len + 1) str) m' options"
    by (rule explode_from_suffix) simp
  finally show ?thesis
    by (simp add: slice_def slice_from_def)
qed

lemma explode_simple_from_placeholder:
  assumes "j < length str" and "str ! j = CHR ''$''" and "i \<le> j"
    and "getTemplateKey (slice_from str (j + 1)) = (key, len)"
  shows "explode_simple_from str mapping j buffer i =
    buffer @ slice str i j @
    (if key = [] then slice str j (j + len + 1) else lookup_text mapping key) @
    explode_simple (slice_from str (j + len + 1)) mapping"
proof -
  let ?e = "if key = [] then slice str j (j + len + 1) else lookup_text mapping key"
  have "explode_simple_from str mapping j buffer i =
      explode_simple_from str mapping (j + len + 1) (buffer @ slice str i j @ ?e) (j + len + 1)"
    using assms by (intro explode_simple_from_dollar) (simp_all add: slice_from_def)
  also have "\<dots> = (buffer @ slice str i j @ ?e) @
      slice str (j + len + 1) (j + len + 1) @ explode_simple (drop (j + len + 1) str) mapping"
    by (rule explode_simple_from_suffix) simp
  finally show ?thesis
    by (simp add: slice_def slice_from_def)
qed

subsection \<open>The split and the heap\<close>

lemma split_ops_not_Nil: "split_ops key \<noteq> []"
  by (induction key) (auto split: list.splits)

lemma split_ops_empty_default:
  "\<not> includes_str k '':-'' \<Longrightarrow> \<not> includes_str k '':='' \<Longrightarrow> op = '':-'' \<or> op = '':='' \<Longrightarrow>
   split_ops (k @ op) = [k, []]"
proof (induction k)
  case Nil
  then show ?case by auto
next
  case (Cons x xs)
  then show ?case by (cases xs) (auto split: list.splits)
qed

lemma substitute_empty_default:
  assumes "m k = None" "Object_prototype k = None"
    "\<not> includes_str k '':-''" "\<not> includes_str k '':=''" "op = '':-'' \<or> op = '':=''"
  shows "substitute options m (k @ op) literal = (if ignoreUnsetVars options then literal else [], m)"
  using assms(1,2,5) split_ops_empty_default [OF assms(3,4,5)]
  by (auto simp: substitute_def has_property_def truthy_def Let_def)

lemma explode_loop_heap_eq:
  "m < length h \<Longrightarrow>
   explode_loop_heap str options j m h buffer i =
     (case explode_loop str options j (h ! m) buffer i of
        (m', buf, i') \<Rightarrow> (h[m := m'], buf, i'))"
proof (induction str options j m h buffer i rule: explode_loop_heap.induct)
  case (1 str options j m h buffer i)
  show ?case
  proof (cases "j < length str")
    case False
    then show ?thesis
      by (simp add: explode_loop_heap.simps [of str options j] explode_loop.simps [of str options j])
  next
    case inside: True
    show ?thesis
    proof (cases "str ! j = CHR ''$''")
      case False
      then show ?thesis
        using inside "1.IH"(2) "1.prems"
        by (simp add: explode_loop_heap.simps [of str options j] explode_loop.simps [of str options j])
    next
      case True
      obtain key len where k: "getTemplateKey (slice_from str (j + 1)) = (key, len)"
        by (cases "getTemplateKey (slice_from str (j + 1))")
      obtain emitted obj where
        t: "substitute options (h ! m) key (slice str j (j + len + 1)) = (emitted, obj)"
        by (cases "substitute options (h ! m) key (slice str j (j + len + 1))")
      have "explode_loop_heap str options (j + len + 1) m (h[m := obj])
              ((buffer @ slice str i j) @ emitted) (j + len + 1) =
            (case explode_loop str options (j + len + 1) (h[m := obj] ! m)
                    ((buffer @ slice str i j) @ emitted) (j + len + 1) of
               (m', buf, i') \<Rightarrow> (h[m := obj, m := m'], buf, i'))"
        using inside True "1.prems" k t
        by (intro "1.IH"(1) [OF inside True refl _ refl]) (auto)
      then show ?thesis
        using inside True k t "1.prems"
        by (simp add: explode_loop_heap.simps [of str options j] explode_loop.simps [of str options j])
    qed
  qed
qed

lemma explode_call_eq:
  assumes "mapping < length h"
  shows "explode_call str mapping options h =
    (explode str (h ! mapping) options,
     h @ [fst (explode_loop str options 0 (h ! mapping) [] 0)])"
proof -
  have "length h < length (h @ [h ! mapping])" by simp
  from explode_loop_heap_eq [OF this, of str options 0 "[]" 0]
  show ?thesis
    by (simp add: explode_call_def explode_def split: prod.splits)
qed


lemma getTemplateKey_name: "getTemplateKey ''name'' = (''name'', 4)"
  by code_simp

subsection \<open>Keys that are not inherited names\<close>

text \<open>
  For a key that is not the name of a property of \<^verbatim>\<open>Object.prototype\<close>, the lookup
  depends on the own properties alone. At any position \<open>j\<close> of the loop that holds a
  \<^verbatim>\<open>$\<close>, the earlier version emits the value stored under the parsed key, and nothing
  when the key is missing or its value is \<^verbatim>\<open>undefined\<close>. In the current version a
  placeholder \<^verbatim>\<open>${\<close>\<open>k op\<close>\<^verbatim>\<open>}\<close> with an empty default, \<open>k\<close> without an operator and
  absent from the working copy, emits nothing or, under \<open>ignoreUnsetVars\<close>, its own text,
  and leaves the working copy as it is.
\<close>

lemma explode_simple_from_own_lookup:
  "j < length str \<Longrightarrow> str ! j = CHR ''$'' \<Longrightarrow> i \<le> j \<Longrightarrow>
   getTemplateKey (slice_from str (j + 1)) = (key, len) \<Longrightarrow> key \<noteq> [] \<Longrightarrow>
   Object_prototype key = None \<Longrightarrow>
   explode_simple_from str mapping j buffer i =
     buffer @ slice str i j @
     (case mapping key of Some (Some v) \<Rightarrow> v | _ \<Rightarrow> []) @
     explode_simple (slice_from str (j + len + 1)) mapping"
  by (simp add: explode_simple_from_placeholder [where key = key and len = len] lookup_text_def
      split: option.splits)

lemma explode_from_empty_default:
  "j < length str \<Longrightarrow> str ! j = CHR ''$'' \<Longrightarrow> i \<le> j \<Longrightarrow>
   slice_from str (j + 1) = ''{'' @ k @ op @ ''}'' @ rest \<Longrightarrow>
   op = '':-'' \<or> op = '':='' \<Longrightarrow>
   \<not> includes_str k '':-'' \<Longrightarrow> \<not> includes_str k '':='' \<Longrightarrow> CHR ''}'' \<notin> set k \<Longrightarrow>
   m k = None \<Longrightarrow> Object_prototype k = None \<Longrightarrow>
   explode_from str options j m buffer i =
     buffer @ slice str i j @
     (if ignoreUnsetVars options then ''${'' @ k @ op @ ''}'' else []) @
     explode rest m options \<and>
   snd (substitute options m (k @ op) (''${'' @ k @ op @ ''}'')) = m"
proof -
  assume inside: "j < length str" and dollar: "str ! j = CHR ''$''" and ij: "i \<le> j"
    and shape: "slice_from str (j + 1) = ''{'' @ k @ op @ ''}'' @ rest"
    and op: "op = '':-'' \<or> op = '':=''"
    and no1: "\<not> includes_str k '':-''" and no2: "\<not> includes_str k '':=''"
    and brace: "CHR ''}'' \<notin> set k" and absent: "m k = None"
    and not_inherited: "Object_prototype k = None"
  let ?key = "k @ op"
  let ?len = "length ?key + 2"
  have key: "getTemplateKey (slice_from str (j + 1)) = (?key, ?len)"
    unfolding shape using brace op getTemplateKey_braced [of ?key rest] by auto
  let ?lit = "''${'' @ k @ op @ ''}''"
  have whole: "drop j str = ?lit @ rest"
    using inside dollar shape by (simp add: slice_from_def flip: Cons_nth_drop_Suc)
  have width: "j + ?len + 1 - j = length ?lit" and behind: "j + ?len + 1 = length ?lit + j"
    by simp_all
  have "slice str j (j + ?len + 1) = take (length ?lit) (drop j str)"
    unfolding slice_def width ..
  then have lit: "slice str j (j + ?len + 1) = ?lit"
    unfolding whole by simp
  have "slice_from str (j + ?len + 1) = drop (length ?lit) (drop j str)"
    unfolding slice_from_def behind by (simp only: drop_drop)
  then have rest: "slice_from str (j + ?len + 1) = rest"
    unfolding whole by simp
  have sub: "substitute options m ?key (slice str j (j + ?len + 1)) =
      (if ignoreUnsetVars options then slice str j (j + ?len + 1) else [], m)"
    using absent not_inherited no1 no2 op by (rule substitute_empty_default)
  have "explode_from str options j m buffer i =
      buffer @ slice str i j @
      (if ignoreUnsetVars options then ?lit else []) @ explode rest m options"
    using explode_from_placeholder [OF inside dollar ij key sub, of buffer]
    by (simp only: lit rest)
  moreover have "snd (substitute options m ?key ?lit) = m"
    using sub by (simp only: lit snd_conv)
  ultimately show ?thesis
    by simp
qed

section \<open>Claims\<close>

text \<open>
  C1. For every template, mapping and options record the call returns a string and signals
  no fault, also on the malformed templates \<^verbatim>\<open>${\<close>, \<^verbatim>\<open>${}\<close> and a lone \<^verbatim>\<open>$\<close>.

  No operation of the source can throw on a value of its type: an index out of range reads
  \<^verbatim>\<open>undefined\<close>, \<^verbatim>\<open>slice\<close> clamps its ends, and the second piece of the split is read
  through \<^verbatim>\<open>?.\<close>; the model has these cases written out. What is left to show is that
  the loops end. \<open>explode_loop_dom x\<close> says that the recursion of the loop from the
  arguments \<open>x\<close> is well founded, so the loop reaches its exit after finitely many
  iterations, whatever the position and the variables are; the same for the loop of the
  earlier version and for the \<^verbatim>\<open>while\<close> loop of the key parser. The split always
  has a first piece, so \<open>realKey\<close> is a string. The three malformed templates come back
  unchanged.
\<close>

theorem explode_total:
  "explode_loop_dom (str, options, j, m, buffer, i) \<and>
   explode_simple_loop_dom (str, mapping, j, buffer, i) \<and>
   getTemplateKey_loop_dom (s, k) \<and>
   split_ops key \<noteq> [] \<and>
   explode ''${'' mapping options = ''${'' \<and>
   explode ''${}'' mapping options = ''${}'' \<and>
   explode ''$'' mapping options = ''$'' \<and>
   explode_simple ''${'' mapping = ''${'' \<and>
   explode_simple ''${}'' mapping = ''${}'' \<and>
   explode_simple ''$'' mapping = ''$''"
proof -
  have "All explode_loop_dom"
    by (relation "measure (\<lambda>(str, options, j, m, buffer, i). length str - j)") auto
  moreover have "All explode_simple_loop_dom"
    by (relation "measure (\<lambda>(str, mapping, j, buffer, i). length str - j)") auto
  moreover have "All getTemplateKey_loop_dom"
    by (relation "measure (\<lambda>(str, i). length str - i)") auto
  moreover have "getTemplateKey ''{'' = ([], 1)"
    using getTemplateKey_unterminated [of "[]"] by simp
  moreover note getTemplateKey_empty_braces [of "[]"] getTemplateKey_Nil
  ultimately show ?thesis
    by (simp add: split_ops_not_Nil explode_Cons_dollar explode_simple_Cons_dollar
        substitute_def explode_Nil explode_simple_Nil)
qed

text \<open>
  C2. In the current version, a placeholder whose key is in the mapping with the value
  \<^verbatim>\<open>undefined\<close> should emit nothing. The code appends the value with \<^verbatim>\<open>+=\<close>, which
  turns \<^verbatim>\<open>undefined\<close> into the text \<^verbatim>\<open>undefined\<close>; the earlier version reads the value
  through \<^verbatim>\<open>?? ""\<close> and emits nothing. The theorem runs both on \<^verbatim>\<open>$name\<close> with
  \<^verbatim>\<open>{name: undefined}\<close>.
\<close>

theorem undefined_value_emits_undefined:
  "explode ''$name'' [''name'' \<mapsto> None] DEFAULT_OPTIONS = ''undefined'' \<and>
   explode_simple ''$name'' [''name'' \<mapsto> None] = []"
  by code_simp

text \<open>
  C3. The key should be split at its first operator only, so that the default of
  \<^verbatim>\<open>a:-b:-c\<close> is \<^verbatim>\<open>b:-c\<close>. The code splits at every operator and keeps the first two
  pieces: the default is \<^verbatim>\<open>b\<close>, and what follows the second operator is dropped.
\<close>

theorem split_drops_rest_of_default:
  "split_ops ''a:-b:-c'' = [''a'', ''b'', ''c''] \<and>
   explode ''${a:-b:-c}'' Map.empty DEFAULT_OPTIONS = ''b''"
  by code_simp

text \<open>
  C4. The working copy should get \<open>realKey \<mapsto> defaultValue\<close> only when the first operator
  of the key is \<^verbatim>\<open>:=\<close>. The code tests whether \<^verbatim>\<open>:=\<close> occurs anywhere in the key: in
  \<^verbatim>\<open>${a:-b:=c}\<close> the first operator is \<^verbatim>\<open>:-\<close>, and still \<open>a\<close> is stored with the
  value \<open>b\<close>, so the \<^verbatim>\<open>$a\<close> after it emits \<open>b\<close>. With \<^verbatim>\<open>${a:-b}\<close> nothing is stored.
\<close>

theorem assignment_on_later_operator:
  "explode ''${a:-b:=c}$a'' Map.empty DEFAULT_OPTIONS = ''bb'' \<and>
   explode ''${a:-b}$a'' Map.empty DEFAULT_OPTIONS = ''b''"
  by code_simp

text \<open>
  C5, as claimed: for the template \<^verbatim>\<open>${}\<close> and the empty mapping the call returns the
  empty string. It does not: the result has three characters.
\<close>

theorem empty_braces_not_empty_output:
  "explode ''${}'' Map.empty DEFAULT_OPTIONS \<noteq> []"
  by (simp add: explode_Cons_dollar [OF getTemplateKey_empty_braces] substitute_def)

text \<open>
  C5, amended: for the template \<^verbatim>\<open>${}\<close> and the empty mapping the call returns
  \<^verbatim>\<open>${}\<close> unchanged, in both versions and with any options: the key parser reports an
  empty key of consumed length 2, so the scan takes exactly the three characters
  \<^verbatim>\<open>$\<close>, \<^verbatim>\<open>{\<close>, \<^verbatim>\<open>}\<close> and emits them verbatim.
\<close>

theorem empty_braces_literal:
  "getTemplateKey ''{}'' = ([], 2) \<and>
   explode ''${}'' Map.empty options = ''${}'' \<and>
   explode_simple ''${}'' Map.empty = ''${}''"
  by (simp add: getTemplateKey_empty_braces
      explode_Cons_dollar [OF getTemplateKey_empty_braces] substitute_def explode_Nil
      explode_simple_Cons_dollar [OF getTemplateKey_empty_braces] explode_simple_Nil)

text \<open>
  C6. Whenever key parsing fails, that is the parsed key is empty, the literal slice from
  the \<^verbatim>\<open>$\<close> through the \<open>len\<close> characters that the parser consumed is emitted verbatim.
  The loop is at any position \<open>j\<close> that holds a \<^verbatim>\<open>$\<close>, with any working copy \<open>m\<close>, any
  buffer and any start \<open>i \<le> j\<close> of the pending literal run, as it is whenever the scan
  reaches a \<^verbatim>\<open>$\<close>. The call then returns the buffer, the pending run, the slice
  \<^verbatim>\<open>str.slice(j, j + len + 1)\<close>, and the expansion of what follows the slice under the
  same working copy. The same holds in the earlier version.
\<close>

theorem parse_failure_emits_literal:
  "j < length str \<Longrightarrow> str ! j = CHR ''$'' \<Longrightarrow> i \<le> j \<Longrightarrow>
   getTemplateKey (slice_from str (j + 1)) = ([], len) \<Longrightarrow>
   explode_from str options j m buffer i =
     buffer @ slice str i j @ slice str j (j + len + 1) @
     explode (slice_from str (j + len + 1)) m options \<and>
   explode_simple_from str m j buffer i =
     buffer @ slice str i j @ slice str j (j + len + 1) @
     explode_simple (slice_from str (j + len + 1)) m"
  by (simp add: explode_from_placeholder [where key = "[]" and m' = m and len = len]
      explode_simple_from_placeholder [where key = "[]" and len = len] substitute_def)

text \<open>
  The three failures that the claim names: a lone \<^verbatim>\<open>$\<close> at the end of \<^verbatim>\<open>a$\<close>, the
  special character in \<^verbatim>\<open>$1\<close>, and \<^verbatim>\<open>${key\<close> without a closing brace. Each template
  comes back unchanged.
\<close>

theorem parse_failure_emits_literal_witness:
  "(1::nat) < length ''a$'' \<and> ''a$'' ! 1 = CHR ''$'' \<and> (0::nat) \<le> 1 \<and>
   getTemplateKey (slice_from ''a$'' (1 + 1)) = ([], 0) \<and>
   explode_from ''a$'' DEFAULT_OPTIONS 1 Map.empty [] 0 = ''a$'' \<and>
   explode_simple_from ''a$'' Map.empty 1 [] 0 = ''a$'' \<and>
   (0::nat) < length ''$1'' \<and> ''$1'' ! 0 = CHR ''$'' \<and> (0::nat) \<le> 0 \<and>
   getTemplateKey (slice_from ''$1'' (0 + 1)) = ([], 0) \<and>
   explode ''$1'' Map.empty DEFAULT_OPTIONS = ''$1'' \<and>
   explode_simple ''$1'' Map.empty = ''$1'' \<and>
   (0::nat) < length ''${key'' \<and> ''${key'' ! 0 = CHR ''$'' \<and>
   getTemplateKey (slice_from ''${key'' (0 + 1)) = ([], 4) \<and>
   explode ''${key'' Map.empty DEFAULT_OPTIONS = ''${key'' \<and>
   explode_simple ''${key'' Map.empty = ''${key''"
proof -
  have k1: "getTemplateKey (slice_from ''a$'' (1 + 1)) = ([], 0)"
    by (simp add: slice_from_def getTemplateKey_Nil)
  have k2: "getTemplateKey (slice_from ''$1'' (0 + 1)) = ([], 0)"
    by (simp add: slice_from_def getTemplateKey_special isShellSpecialVar_def)
  have k3: "getTemplateKey (slice_from ''${key'' (0 + 1)) = ([], 4)"
    using getTemplateKey_unterminated [of "''key''"] by (simp add: slice_from_def)
  have p1: "(1::nat) < length ''a$''" "''a$'' ! 1 = CHR ''$''" "(0::nat) \<le> 1"
    and p2: "(0::nat) < length ''$1''" "''$1'' ! 0 = CHR ''$''" "(0::nat) \<le> 0"
    and p3: "(0::nat) < length ''${key''" "''${key'' ! 0 = CHR ''$''"
    by simp_all
  have e2: "explode ''$1'' Map.empty DEFAULT_OPTIONS =
      explode_from ''$1'' DEFAULT_OPTIONS 0 Map.empty [] 0"
    and e3: "explode ''${key'' Map.empty DEFAULT_OPTIONS =
      explode_from ''${key'' DEFAULT_OPTIONS 0 Map.empty [] 0"
    by (rule explode_eq_from)+
  have s2: "explode_simple ''$1'' Map.empty = explode_simple_from ''$1'' Map.empty 0 [] 0"
    and s3: "explode_simple ''${key'' Map.empty = explode_simple_from ''${key'' Map.empty 0 [] 0"
    by (rule explode_simple_eq_from)+
  show ?thesis
    unfolding e2 e3 s2 s3
    using parse_failure_emits_literal [OF p1 k1, of DEFAULT_OPTIONS Map.empty "[]"]
      parse_failure_emits_literal [OF p2 k2, of DEFAULT_OPTIONS Map.empty "[]"]
      parse_failure_emits_literal [OF p3 p2(3) k3, of DEFAULT_OPTIONS Map.empty "[]"]
      k1 k2 k3
    by (simp add: slice_def slice_from_def
        explode_Nil explode_simple_Nil explode_Cons_other explode_simple_Cons_other)
qed

text \<open>
  C7. In the earlier version an unresolved key should always be replaced by the empty
  string, the parsed key being looked up as it is. The key is looked up as it is, but the
  read \<^verbatim>\<open>mapping[key]\<close> follows the prototype chain: for a key that is the name of a
  property of \<^verbatim>\<open>Object.prototype\<close> and is not in the mapping, the code appends the text
  of the inherited value. The theorem runs \<^verbatim>\<open>$constructor\<close> and \<^verbatim>\<open>${toString}\<close> on the
  empty mapping, and for comparison \<^verbatim>\<open>$name\<close> and the braced key \<^verbatim>\<open>${a:-b}\<close>, which
  is not split.
\<close>

theorem simple_variant_inherited_name:
  "explode_simple ''$constructor'' Map.empty = ''function Object() { [native code] }'' \<and>
   explode_simple ''${toString}'' Map.empty = ''function toString() { [native code] }'' \<and>
   explode_simple ''$name'' Map.empty = [] \<and>
   explode_simple ''x${a:-b}!'' [''a'' \<mapsto> Some ''v''] = ''x!'' \<and>
   explode_simple ''x${a:-b}!'' [''a:-b'' \<mapsto> Some ''v''] = ''xv!''"
  by code_simp

text \<open>
  C8. A call never changes the caller's mapping. On the heap, every object that existed
  before the call is the same after it, in particular the one at the address \<open>mapping\<close>:
  the call writes only to the copy it allocates. The string returned is a function of the
  template, the options and the properties of the caller's object, so a second call with
  the same arguments, on the heap that the first call leaves, returns the same string.
\<close>

theorem explode_call_frame:
  "mapping < length h \<Longrightarrow>
   take (length h) (snd (explode_call str mapping options h)) = h \<and>
   snd (explode_call str mapping options h) ! mapping = h ! mapping \<and>
   fst (explode_call str mapping options h) = explode str (h ! mapping) options \<and>
   fst (explode_call str mapping options (snd (explode_call str mapping options h))) =
     fst (explode_call str mapping options h)"
proof -
  assume valid: "mapping < length h"
  let ?h' = "snd (explode_call str mapping options h)"
  have h': "?h' = h @ [fst (explode_loop str options 0 (h ! mapping) [] 0)]"
    using valid by (simp add: explode_call_eq)
  have out: "fst (explode_call str mapping options h) = explode str (h ! mapping) options"
    using valid by (simp add: explode_call_eq)
  have frame: "take (length h) ?h' = h" and same: "?h' ! mapping = h ! mapping"
    using valid by (simp_all add: h' nth_append)
  have "mapping < length ?h'"
    using valid by (simp add: h')
  then have "fst (explode_call str mapping options ?h') = explode str (?h' ! mapping) options"
    by (simp add: explode_call_eq)
  then show ?thesis
    using out frame same by simp
qed

text \<open>
  The template \<^verbatim>\<open>${a:=b}$a\<close> on a heap whose only object is the empty mapping: the call
  returns \<open>bb\<close>, so the default was stored, and the object at address 0 is still empty.
\<close>

theorem explode_call_frame_witness:
  "(0::nat) < length [Map.empty :: mapping] \<and>
   fst (explode_call ''${a:=b}$a'' 0 DEFAULT_OPTIONS [Map.empty]) = ''bb'' \<and>
   snd (explode_call ''${a:=b}$a'' 0 DEFAULT_OPTIONS [Map.empty]) ! 0 = Map.empty \<and>
   fst (explode_call ''${a:=b}$a'' 0 DEFAULT_OPTIONS
         (snd (explode_call ''${a:=b}$a'' 0 DEFAULT_OPTIONS [Map.empty]))) = ''bb''"
proof -
  have valid: "(0::nat) < length [Map.empty :: mapping]"
    by simp
  have run: "explode ''${a:=b}$a'' Map.empty DEFAULT_OPTIONS = ''bb''"
    by code_simp
  show ?thesis
    using explode_call_frame [OF valid, of "''${a:=b}$a''" DEFAULT_OPTIONS] run
    by simp
qed

text \<open>
  C9. In the current version a default written with empty text, as in \<^verbatim>\<open>${key:-}\<close> or
  \<^verbatim>\<open>${key:=}\<close>, should count as no default: for a mapping without the key the
  placeholder emits nothing, or its own text under \<open>ignoreUnsetVars\<close>. The test
  \<^verbatim>\<open>realKey in m\<close> follows the prototype chain: for a key that is the name of a
  property of \<^verbatim>\<open>Object.prototype\<close> the code takes the branch of a key that is present
  and appends the text of the inherited value, with either setting of
  \<open>ignoreUnsetVars\<close>. The theorem runs \<^verbatim>\<open>x${constructor:=}!\<close> and
  \<^verbatim>\<open>x${constructor:-}!\<close> on the empty mapping, and for comparison \<^verbatim>\<open>x${key:=}$key\<close>,
  where nothing is emitted and nothing is stored.
\<close>

theorem empty_default_inherited_name:
  "explode ''x${constructor:=}!'' Map.empty DEFAULT_OPTIONS =
     ''xfunction Object() { [native code] }!'' \<and>
   explode ''x${constructor:-}!'' Map.empty
     \<lparr>ignoreUnsetVars = True, ignoreDefaultExpansion = False\<rparr> =
     ''xfunction Object() { [native code] }!'' \<and>
   explode ''x${key:=}$key'' Map.empty DEFAULT_OPTIONS = ''x'' \<and>
   explode ''x${key:-}$key'' Map.empty DEFAULT_OPTIONS = ''x'' \<and>
   explode ''x${key:=}$key'' Map.empty
     \<lparr>ignoreUnsetVars = True, ignoreDefaultExpansion = False\<rparr> = ''x${key:=}$key''"
  by code_simp

text \<open>
  C10. A doubled dollar sign is no escape. In \<^verbatim>\<open>$$name\<close> the first \<^verbatim>\<open>$\<close> is followed
  by the special character \<^verbatim>\<open>$\<close>: the key is empty and nothing more is consumed, the
  \<^verbatim>\<open>$\<close> is emitted, and the scan resumes at the second \<^verbatim>\<open>$\<close>, which starts the
  placeholder \<^verbatim>\<open>$name\<close>. With \<open>name\<close> mapped to the string \<open>v\<close> both versions return
  \<^verbatim>\<open>$\<close> followed by \<open>v\<close>.
\<close>

theorem double_dollar_no_escape:
  "m ''name'' = Some (Some v) \<Longrightarrow>
   getTemplateKey ''$name'' = ([], 0) \<and>
   explode ''$$name'' m options = CHR ''$'' # v \<and>
   explode_simple ''$$name'' m = CHR ''$'' # v"
  by (simp add: getTemplateKey_special
      explode_Cons_dollar [OF getTemplateKey_special] explode_Cons_dollar [OF getTemplateKey_name]
      explode_simple_Cons_dollar [OF getTemplateKey_special]
      explode_simple_Cons_dollar [OF getTemplateKey_name]
      isShellSpecialVar_def substitute_def has_property_def property_text_def
      explode_Nil explode_simple_Nil to_text_def lookup_text_def)

theorem double_dollar_no_escape_witness:
  "[''name'' \<mapsto> Some ''World''] ''name'' = Some (Some ''World'') \<and>
   explode ''$$name'' [''name'' \<mapsto> Some ''World''] DEFAULT_OPTIONS = ''$World'' \<and>
   explode_simple ''$$name'' [''name'' \<mapsto> Some ''World''] = ''$World''"
proof -
  have h: "[''name'' \<mapsto> Some ''World''] ''name'' = Some (Some ''World'')"
    by simp
  show ?thesis
    using h double_dollar_no_escape [of "[''name'' \<mapsto> Some ''World'']" "''World''" DEFAULT_OPTIONS]
    by simp
qed

end
